theory Spec2Isabelle
  imports Main "HOL-Library.Word" "HOL-Library.Multiset"
begin

unbundle bit_operations_syntax

section \<open>Data model\<close>

text \<open>
  Go's \<^verbatim>\<open>int\<close> on a 64-bit platform is a 64-bit two's-complement integer: \<open>+\<close> wraps
  around, comparisons are signed (\<open><s\<close>, \<open>\<le>s\<close>, read through \<open>sint\<close>).
\<close>

type_synonym goint = "64 word"

text \<open>\<^verbatim>\<open>math.MaxInt\<close>, the largest \<^verbatim>\<open>int\<close>; adding 1 to it wraps around.\<close>

definition MaxInt :: goint where
  "MaxInt = 0x7FFFFFFFFFFFFFFF"

text \<open>
  A \<^verbatim>\<open>time.Time\<close> is read as its instant on the time line; \<^verbatim>\<open>Before\<close> and
  \<^verbatim>\<open>After\<close> are the strict comparisons of instants.
\<close>

type_synonym time = int

text \<open>\<^verbatim>\<open>type Priority string\<close>: any string is a value of the type.\<close>

type_synonym Priority = string

definition PriorityLow :: Priority where
  "PriorityLow = ''low''"

definition PriorityMedium :: Priority where
  "PriorityMedium = ''medium''"

definition PriorityHigh :: Priority where
  "PriorityHigh = ''high''"

record Task =
  ID :: goint
  Title :: string
  Completed :: bool
  DueDate :: "time option"
  Priority :: Priority
  CreatedAt :: time
  UpdatedAt :: time

subsection \<open>Task entity (task.go)\<close>

text \<open>Every function that calls \<^verbatim>\<open>time.Now()\<close> takes the clock reading as \<open>now\<close>.\<close>

definition NewTask :: "time \<Rightarrow> goint \<Rightarrow> string \<Rightarrow> Task" where
  "NewTask now id' title =
     \<lparr>ID = id', Title = title, Completed = False, DueDate = None,
      Priority = PriorityMedium, CreatedAt = now, UpdatedAt = now\<rparr>"

definition Complete :: "time \<Rightarrow> Task \<Rightarrow> Task" where
  "Complete now t = t\<lparr>Completed := True, UpdatedAt := now\<rparr>"

definition SetPriority :: "time \<Rightarrow> Priority \<Rightarrow> Task \<Rightarrow> Task" where
  "SetPriority now priority t = t\<lparr>Priority := priority, UpdatedAt := now\<rparr>"

definition SetDueDate :: "time \<Rightarrow> time \<Rightarrow> Task \<Rightarrow> Task" where
  "SetDueDate now dueDate t = t\<lparr>DueDate := Some dueDate, UpdatedAt := now\<rparr>"

definition IsOverdue :: "time \<Rightarrow> Task \<Rightarrow> bool" where
  "IsOverdue now t =
     (if DueDate t = None \<or> Completed t then False
      else (case DueDate t of Some d \<Rightarrow> d < now | None \<Rightarrow> False))"

definition ValidatePriority :: "string \<Rightarrow> bool" where
  "ValidatePriority priority =
     (if priority = PriorityLow \<or> priority = PriorityMedium \<or> priority = PriorityHigh
      then True else False)"

section \<open>Standard library functions used by the code\<close>

text \<open>
  The code calls \<^verbatim>\<open>sort.Slice\<close>, \<^verbatim>\<open>strings.TrimSpace\<close> and \<^verbatim>\<open>strings.ToLower\<close> of
  the Go standard library. They are parameters of the model, collected in one record, so
  that every theorem holds for whatever these functions compute. \<^verbatim>\<open>sort.Slice\<close> is given
  the comparison on elements that the code's closure computes on the indices.
\<close>

record lib =
  sort_Slice :: "(Task \<Rightarrow> Task \<Rightarrow> bool) \<Rightarrow> Task list \<Rightarrow> Task list"
  strings_TrimSpace :: "string \<Rightarrow> string"
  strings_ToLower :: "string \<Rightarrow> string"

text \<open>\<^verbatim>\<open>strings.Contains(s, substr)\<close>: \<open>substr\<close> occurs in \<open>s\<close> as a run of bytes.\<close>

fun strings_Contains :: "string \<Rightarrow> string \<Rightarrow> bool" where
  "strings_Contains [] substr = (substr = [])"
| "strings_Contains (c # cs) substr =
     (take (length substr) (c # cs) = substr \<or> strings_Contains cs substr)"

text \<open>
  What the documentation of \<^verbatim>\<open>sort.Slice\<close> promises: the slice is rearranged (the
  sort only swaps elements), and for a comparison that is a strict weak ordering no later
  element is less than an earlier one. It promises no stability.
\<close>

definition strict_weak_order :: "('a \<Rightarrow> 'a \<Rightarrow> bool) \<Rightarrow> bool" where
  "strict_weak_order lt =
     ((\<forall>a. \<not> lt a a) \<and>
      (\<forall>a b c. lt a b \<longrightarrow> lt b c \<longrightarrow> lt a c) \<and>
      (\<forall>a b c. lt a c \<longrightarrow> lt a b \<or> lt b c))"

definition sort_Slice_permutes :: "lib \<Rightarrow> bool" where
  "sort_Slice_permutes L = (\<forall>lt xs. mset (sort_Slice L lt xs) = mset xs)"

definition sort_Slice_sorts :: "lib \<Rightarrow> bool" where
  "sort_Slice_sorts L =
     (\<forall>lt xs. strict_weak_order lt \<longrightarrow>
        sorted_wrt (\<lambda>a b. \<not> lt b a) (sort_Slice L lt xs))"

definition sort_Slice_contract :: "lib \<Rightarrow> bool" where
  "sort_Slice_contract L = (sort_Slice_permutes L \<and> sort_Slice_sorts L)"

text \<open>The k-th call of \<^verbatim>\<open>time.Now()\<close> within one operation returns \<open>clk k\<close>.\<close>

type_synonym clock = "nat \<Rightarrow> time"

section \<open>Persistence layer (storage.go)\<close>

text \<open>
  \<^verbatim>\<open>storage.Task\<close> has the fields of \<^verbatim>\<open>todo.Task\<close> and the manager converts field by
  field, so one record serves both. \<^verbatim>\<open>TaskList.Tasks\<close> is a slice of pointers: an element
  of the JSON array that is \<^verbatim>\<open>null\<close> is a nil pointer, \<open>None\<close> here.
\<close>

record TaskList =
  Tasks :: "Task option list"
  NextID :: goint
  LastUpdate :: string

datatype storage_error =
  MkdirFailed | ReadFailed | ParseFailed | MarshalFailed | WriteFailed

text \<open>
  What \<^verbatim>\<open>FileStorage.LoadTasks\<close> meets on disk, in the order it looks: the directory
  cannot be created, the file does not exist, it cannot be read, it is empty, it is not
  the JSON of a \<^verbatim>\<open>TaskList\<close>, or it is.
\<close>

datatype file_state =
  MkdirAllFails | FileNotExist | ReadFileFails | EmptyData | UnmarshalFails
  | Unmarshalled TaskList

text \<open>A call returns a value, returns an error, or panics (a nil pointer is dereferenced).\<close>

datatype ('e, 'a) outcome = Ok 'a | Error 'e | Panic

text \<open>The loop of \<^verbatim>\<open>LoadTasks\<close> that finds the highest id; \<open>None\<close> is the panic.\<close>

fun highest_id_loop :: "Task option list \<Rightarrow> goint \<Rightarrow> goint option" where
  "highest_id_loop [] n = Some n"
| "highest_id_loop (None # ts) n = None"
| "highest_id_loop (Some task # ts) n =
     highest_id_loop ts (if n \<le>s ID task then ID task + 1 else n)"

definition FileStorage_LoadTasks ::
  "file_state \<Rightarrow> (storage_error, Task option list \<times> goint) outcome" where
  "FileStorage_LoadTasks disk =
     (case disk of
        MkdirAllFails \<Rightarrow> Error MkdirFailed
      | FileNotExist \<Rightarrow> Ok ([], 1)
      | ReadFileFails \<Rightarrow> Error ReadFailed
      | EmptyData \<Rightarrow> Ok ([], 1)
      | UnmarshalFails \<Rightarrow> Error ParseFailed
      | Unmarshalled taskList \<Rightarrow>
          (if NextID taskList = 0 then
             (case highest_id_loop (Tasks taskList) 1 of
                None \<Rightarrow> Panic
              | Some n \<Rightarrow> Ok (Tasks taskList, n))
           else Ok (Tasks taskList, NextID taskList)))"

text \<open>
  What \<^verbatim>\<open>FileStorage.SaveTasks\<close> meets: the step that fails, if one does. The file it
  writes is not part of the model's state.
\<close>

datatype save_env = SaveMkdirFails | SaveMarshalFails | SaveWriteFails | SaveSucceeds

definition FileStorage_SaveTasks ::
  "save_env \<Rightarrow> Task option list \<Rightarrow> goint \<Rightarrow> storage_error option" where
  "FileStorage_SaveTasks env tasks' nextID' =
     (case env of
        SaveMkdirFails \<Rightarrow> Some MkdirFailed
      | SaveMarshalFails \<Rightarrow> Some MarshalFailed
      | SaveWriteFails \<Rightarrow> Some WriteFailed
      | SaveSucceeds \<Rightarrow> None)"

section \<open>Task manager (manager.go)\<close>

datatype error =
  ErrTaskNotFound
  | ErrInvalidID
  | ErrTitleEmpty
  | ErrInvalidPriority Priority
  | ErrAlreadyCompleted goint
  | ErrLoadFailed storage_error
  | ErrSaveFailed storage_error

text \<open>
  \<open>ErrTitleEmpty\<close> is \<^verbatim>\<open>"task title cannot be empty"\<close> and \<open>ErrInvalidPriority\<close> is
  \<^verbatim>\<open>"invalid priority: ..."\<close>, the two validation errors; \<open>ErrAlreadyCompleted\<close> is
  \<^verbatim>\<open>"task %d is already completed"\<close>.
\<close>

record FilterOptions =
  ShowCompleted :: bool
  ShowPending :: bool
  Priority_f :: Priority
  Search :: string
  SortBy :: string

text \<open>
  The manager's \<^verbatim>\<open>tasks\<close> is a slice of pointers to tasks that \<^verbatim>\<open>LoadTasks\<close> and
  \<^verbatim>\<open>AddTask\<close> allocate one by one, so a pointer is a position in the list.
\<close>

record Manager =
  tasks :: "Task list"
  nextID :: goint

definition NewManager :: Manager where
  "NewManager = \<lparr>tasks = [], nextID = 1\<rparr>"

text \<open>The conversion loop of \<^verbatim>\<open>Manager.LoadTasks\<close>; \<open>None\<close> is the panic at a nil task.\<close>

fun convert_loop :: "Task option list \<Rightarrow> Task list option" where
  "convert_loop [] = Some []"
| "convert_loop (None # sts) = None"
| "convert_loop (Some st # sts) =
     (case convert_loop sts of
        None \<Rightarrow> None
      | Some ts \<Rightarrow>
          Some (\<lparr>ID = ID st, Title = Title st, Completed = Completed st,
                 DueDate = DueDate st, Priority = Priority st,
                 CreatedAt = CreatedAt st, UpdatedAt = UpdatedAt st\<rparr> # ts))"

definition LoadTasks :: "file_state \<Rightarrow> Manager \<Rightarrow> (error, Manager) outcome" where
  "LoadTasks disk m =
     (case FileStorage_LoadTasks disk of
        Error err \<Rightarrow> Error (ErrLoadFailed err)
      | Panic \<Rightarrow> Panic
      | Ok (storageTasks, nextID') \<Rightarrow>
          (case convert_loop storageTasks of
             None \<Rightarrow> Panic
           | Some ts \<Rightarrow> Ok (m\<lparr>tasks := ts, nextID := nextID'\<rparr>)))"

definition SaveTasks :: "save_env \<Rightarrow> Manager \<Rightarrow> error option" where
  "SaveTasks env m =
     (case FileStorage_SaveTasks env (map Some (tasks m)) (nextID m) of
        Some err \<Rightarrow> Some (ErrSaveFailed err)
      | None \<Rightarrow> None)"

definition AddTask ::
  "lib \<Rightarrow> clock \<Rightarrow> save_env \<Rightarrow> Manager \<Rightarrow> string \<Rightarrow> Priority \<Rightarrow> time option
     \<Rightarrow> (error + Task) \<times> Manager" where
  "AddTask L clk env m title priority dueDate =
     (if strings_TrimSpace L title = [] then (Inl ErrTitleEmpty, m)
      else
        let task = NewTask (clk 0) (nextID m) (strings_TrimSpace L title) in
        if priority \<noteq> [] \<and> \<not> ValidatePriority priority
        then (Inl (ErrInvalidPriority priority), m)
        else
          let task1 = (if priority \<noteq> [] then SetPriority (clk 1) priority task else task);
              task2 = (case dueDate of
                         Some d \<Rightarrow> SetDueDate (clk (if priority \<noteq> [] then 2 else 1)) d task1
                       | None \<Rightarrow> task1);
              m' = m\<lparr>tasks := tasks m @ [task2], nextID := nextID m + 1\<rparr>
          in (case SaveTasks env m' of
                Some err \<Rightarrow> (Inl err, m')
              | None \<Rightarrow> (Inr task2, m')))"

text \<open>The task that \<^verbatim>\<open>AddTask\<close> builds once the title and the priority are accepted.\<close>

definition built_task :: "lib \<Rightarrow> clock \<Rightarrow> Manager \<Rightarrow> string \<Rightarrow> Priority \<Rightarrow> time option \<Rightarrow> Task" where
  "built_task L clk m title priority dueDate =
     (let task = NewTask (clk 0) (nextID m) (strings_TrimSpace L title);
          task1 = (if priority \<noteq> [] then SetPriority (clk 1) priority task else task)
      in (case dueDate of
            Some d \<Rightarrow> SetDueDate (clk (if priority \<noteq> [] then 2 else 1)) d task1
          | None \<Rightarrow> task1))"

text \<open>The position of the first task with the id: the loop of \<^verbatim>\<open>GetTask\<close> and \<^verbatim>\<open>DeleteTask\<close>.\<close>

fun find_by_id :: "Task list \<Rightarrow> goint \<Rightarrow> nat option" where
  "find_by_id [] id' = None"
| "find_by_id (task # ts) id' =
     (if ID task = id' then Some 0 else map_option Suc (find_by_id ts id'))"

text \<open>\<^verbatim>\<open>GetTask\<close> returns a pointer into the collection: the position of the task.\<close>

definition GetTask :: "Manager \<Rightarrow> goint \<Rightarrow> error + nat" where
  "GetTask m id' =
     (if id' \<le>s 0 then Inl ErrInvalidID
      else (case find_by_id (tasks m) id' of
              Some i \<Rightarrow> Inr i
            | None \<Rightarrow> Inl ErrTaskNotFound))"

definition CompleteTask ::
  "clock \<Rightarrow> save_env \<Rightarrow> Manager \<Rightarrow> goint \<Rightarrow> (error + Task) \<times> Manager" where
  "CompleteTask clk env m id' =
     (case GetTask m id' of
        Inl err \<Rightarrow> (Inl err, m)
      | Inr i \<Rightarrow>
          (if Completed (tasks m ! i) then (Inl (ErrAlreadyCompleted id'), m)
           else
             let m' = m\<lparr>tasks := (tasks m)[i := Complete (clk 0) (tasks m ! i)]\<rparr> in
             (case SaveTasks env m' of
                Some err \<Rightarrow> (Inl err, m')
              | None \<Rightarrow> (Inr (tasks m' ! i), m'))))"

definition DeleteTask ::
  "save_env \<Rightarrow> Manager \<Rightarrow> goint \<Rightarrow> (error + Task) \<times> Manager" where
  "DeleteTask env m id' =
     (if id' \<le>s 0 then (Inl ErrInvalidID, m)
      else (case find_by_id (tasks m) id' of
              None \<Rightarrow> (Inl ErrTaskNotFound, m)
            | Some i \<Rightarrow>
                let deletedTask = tasks m ! i;
                    m' = m\<lparr>tasks := take i (tasks m) @ drop (i + 1) (tasks m)\<rparr>
                in (case SaveTasks env m' of
                      Some err \<Rightarrow> (Inl err, m')
                    | None \<Rightarrow> (Inr deletedTask, m'))))"

subsection \<open>Listing\<close>

text \<open>One pass of the filter loop: \<open>True\<close> when the task is appended, \<open>False\<close> at a \<^verbatim>\<open>continue\<close>.\<close>

definition passes_filter :: "lib \<Rightarrow> FilterOptions \<Rightarrow> Task \<Rightarrow> bool" where
  "passes_filter L filter' task =
     (if (if ShowCompleted filter' \<and> \<not> ShowPending filter' then \<not> Completed task
          else if ShowPending filter' \<and> \<not> ShowCompleted filter' then Completed task
          else False) then False
      else if Priority_f filter' \<noteq> [] \<and> Priority task \<noteq> Priority_f filter' then False
      else if Search filter' \<noteq> []
              \<and> \<not> strings_Contains (strings_ToLower L (Title task))
                                    (strings_ToLower L (Search filter')) then False
      else True)"

fun filter_loop :: "lib \<Rightarrow> FilterOptions \<Rightarrow> Task list \<Rightarrow> Task list \<Rightarrow> Task list" where
  "filter_loop L filter' [] filteredTasks = filteredTasks"
| "filter_loop L filter' (task # ts) filteredTasks =
     filter_loop L filter' ts
       (if passes_filter L filter' task then filteredTasks @ [task] else filteredTasks)"

text \<open>A Go map read at a key it does not hold gives the zero value.\<close>

definition map_index :: "('k \<rightharpoonup> int) \<Rightarrow> 'k \<Rightarrow> int" where
  "map_index mp k = (case mp k of Some v \<Rightarrow> v | None \<Rightarrow> 0)"

definition priorityOrder :: "Priority \<rightharpoonup> int" where
  "priorityOrder = [PriorityHigh \<mapsto> 3, PriorityMedium \<mapsto> 2, PriorityLow \<mapsto> 1]"

definition less_priority :: "Task \<Rightarrow> Task \<Rightarrow> bool" where
  "less_priority ti tj =
     (map_index priorityOrder (Priority ti) > map_index priorityOrder (Priority tj))"

definition less_due :: "Task \<Rightarrow> Task \<Rightarrow> bool" where
  "less_due ti tj =
     (if DueDate ti = None \<and> DueDate tj = None then ID ti <s ID tj
      else if DueDate ti = None then False
      else if DueDate tj = None then True
      else (case (DueDate ti, DueDate tj) of
              (Some di, Some dj) \<Rightarrow> di < dj
            | _ \<Rightarrow> False))"

definition less_created :: "Task \<Rightarrow> Task \<Rightarrow> bool" where
  "less_created ti tj = (CreatedAt ti < CreatedAt tj)"

definition less_id :: "Task \<Rightarrow> Task \<Rightarrow> bool" where
  "less_id ti tj = (ID ti <s ID tj)"

definition sortTasks :: "lib \<Rightarrow> Task list \<Rightarrow> string \<Rightarrow> Task list" where
  "sortTasks L ts sortBy =
     (if sortBy = ''priority'' then sort_Slice L less_priority ts
      else if sortBy = ''due'' then sort_Slice L less_due ts
      else if sortBy = ''created'' then sort_Slice L less_created ts
      else sort_Slice L less_id ts)"

definition ListTasks :: "lib \<Rightarrow> Manager \<Rightarrow> FilterOptions \<Rightarrow> Task list" where
  "ListTasks L m filter' = sortTasks L (filter_loop L filter' (tasks m) []) (SortBy filter')"

text \<open>
  The priority filter and the search filter as the specification words them: an exact
  match when a priority is set, and case-insensitive containment in the title when a
  search string is set.
\<close>

definition other_filters :: "lib \<Rightarrow> FilterOptions \<Rightarrow> Task \<Rightarrow> bool" where
  "other_filters L filter' task =
     ((Priority_f filter' = [] \<or> Priority task = Priority_f filter') \<and>
      (Search filter' = [] \<or>
       strings_Contains (strings_ToLower L (Title task)) (strings_ToLower L (Search filter'))))"

subsection \<open>Statistics\<close>

text \<open>\<^verbatim>\<open>stats[k]++\<close> on a \<^verbatim>\<open>map[string]int\<close>.\<close>

definition incr :: "(string \<rightharpoonup> int) \<Rightarrow> string \<Rightarrow> (string \<rightharpoonup> int)" where
  "incr stats k = stats(k \<mapsto> map_index stats k + 1)"

text \<open>
  The body of the loop of \<^verbatim>\<open>GetStats\<close>, for one task; \<open>now\<close> is what \<^verbatim>\<open>time.Now()\<close>
  returns inside \<^verbatim>\<open>IsOverdue\<close>.
\<close>

definition GetStats_body :: "time \<Rightarrow> Task \<Rightarrow> (string \<rightharpoonup> int) \<Rightarrow> (string \<rightharpoonup> int)" where
  "GetStats_body now task stats =
     (let stats1 =
            (if Completed task then incr stats ''completed''
             else
               let s = incr stats ''pending'' in
               if IsOverdue now task then incr s ''overdue'' else s)
      in if Priority task = PriorityHigh then incr stats1 ''high''
         else if Priority task = PriorityMedium then incr stats1 ''medium''
         else if Priority task = PriorityLow then incr stats1 ''low''
         else stats1)"

text \<open>
  The loop; \<open>k\<close> counts the calls of \<^verbatim>\<open>time.Now()\<close> made so far: one by each call of
  \<^verbatim>\<open>IsOverdue\<close> that gets past its guard.
\<close>

fun GetStats_loop ::
  "clock \<Rightarrow> nat \<Rightarrow> Task list \<Rightarrow> (string \<rightharpoonup> int) \<Rightarrow> (string \<rightharpoonup> int)" where
  "GetStats_loop clk k [] stats = stats"
| "GetStats_loop clk k (task # ts) stats =
     GetStats_loop clk (if Completed task \<or> DueDate task = None then k else Suc k) ts
       (GetStats_body (clk k) task stats)"

definition GetStats :: "clock \<Rightarrow> Manager \<Rightarrow> (string \<rightharpoonup> int)" where
  "GetStats clk m =
     GetStats_loop clk 0 (tasks m)
       [''total'' \<mapsto> int (length (tasks m)), ''completed'' \<mapsto> 0, ''pending'' \<mapsto> 0,
        ''overdue'' \<mapsto> 0, ''high'' \<mapsto> 0, ''medium'' \<mapsto> 0, ''low'' \<mapsto> 0]"

section \<open>An instance of the library parameters\<close>

text \<open>
  To run the model on concrete inputs: an insertion sort, which is how \<^verbatim>\<open>sort.Slice\<close>
  sorts a slice of up to 12 elements, and \<^verbatim>\<open>strings.TrimSpace\<close> and
  \<^verbatim>\<open>strings.ToLower\<close> as they behave on ASCII strings.
\<close>

definition is_space_ascii :: "char \<Rightarrow> bool" where
  "is_space_ascii c =
     (c \<in> set [CHR 0x09, CHR 0x0A, CHR 0x0B, CHR 0x0C, CHR 0x0D, CHR '' ''])"

definition TrimSpace_ascii :: "string \<Rightarrow> string" where
  "TrimSpace_ascii s = rev (dropWhile is_space_ascii (rev (dropWhile is_space_ascii s)))"

definition ToLower_ascii :: "string \<Rightarrow> string" where
  "ToLower_ascii s =
     map (\<lambda>c. if 65 \<le> (of_char c :: nat) \<and> (of_char c :: nat) \<le> 90
               then char_of ((of_char c :: nat) + 32) else c) s"

fun insert_sorted :: "('a \<Rightarrow> 'a \<Rightarrow> bool) \<Rightarrow> 'a \<Rightarrow> 'a list \<Rightarrow> 'a list" where
  "insert_sorted lt x [] = [x]"
| "insert_sorted lt x (y # ys) =
     (if lt y x then y # insert_sorted lt x ys else x # y # ys)"

fun insertion_sort :: "('a \<Rightarrow> 'a \<Rightarrow> bool) \<Rightarrow> 'a list \<Rightarrow> 'a list" where
  "insertion_sort lt [] = []"
| "insertion_sort lt (x # xs) = insert_sorted lt x (insertion_sort lt xs)"

definition small_lib :: lib where
  "small_lib = \<lparr>sort_Slice = insertion_sort, strings_TrimSpace = TrimSpace_ascii,
                 strings_ToLower = ToLower_ascii\<rparr>"

section \<open>The watermark\<close>

text \<open>\<^verbatim>\<open>nextID\<close> is greater than the id of every task of the collection.\<close>

definition watermark :: "Manager \<Rightarrow> bool" where
  "watermark m = (\<forall>t \<in> set (tasks m). ID t <s nextID m)"

text \<open>
  The documents from which \<^verbatim>\<open>LoadTasks\<close> establishes the watermark: a stored
  \<^verbatim>\<open>next_id\<close> of zero is recomputed, which works unless an id is the largest
  \<^verbatim>\<open>int\<close>; any other stored \<^verbatim>\<open>next_id\<close> is taken as it is, so it must already be
  above every stored id.
\<close>

definition watermark_document :: "file_state \<Rightarrow> bool" where
  "watermark_document disk =
     (case disk of
        Unmarshalled taskList \<Rightarrow>
          (if NextID taskList = 0
           then (\<forall>st \<in> set (Tasks taskList). case st of Some t \<Rightarrow> ID t \<noteq> MaxInt | None \<Rightarrow> True)
           else (\<forall>st \<in> set (Tasks taskList).
                   case st of Some t \<Rightarrow> ID t <s NextID taskList | None \<Rightarrow> True))
      | _ \<Rightarrow> True)"

section \<open>Sequences of operations\<close>




section \<open>sort.Slice as the Go library computes it\<close>

text \<open>
  From Go 1.19 on (the repository asks for Go 1.21 or later) \<^verbatim>\<open>sort.Slice\<close> is a
  pattern-defeating quicksort: an insertion sort on up to 12 elements, and otherwise a
  choice of pivot, a check for an already sorted slice, and a partition. This section
  follows \<^verbatim>\<open>zsortfunc.go\<close> of the library on the paths a slice of fewer than 50
  elements takes while its partitions are balanced.
\<close>

text \<open>\<^verbatim>\<open>data.Swap(i, j)\<close> and \<^verbatim>\<open>data.Less(i, j)\<close> act on the slice; indices are Go ints.\<close>

definition swap :: "'a list \<Rightarrow> int \<Rightarrow> int \<Rightarrow> 'a list" where
  "swap data i j = data[nat i := data ! nat j, nat j := data ! nat i]"

function insertion_inner :: "('a \<Rightarrow> 'a \<Rightarrow> bool) \<Rightarrow> 'a list \<Rightarrow> int \<Rightarrow> int \<Rightarrow> 'a list" where
  "insertion_inner lt data a j =
     (if j > a \<and> lt (data ! nat j) (data ! nat (j - 1))
      then insertion_inner lt (swap data j (j - 1)) a (j - 1)
      else data)"
  by pat_completeness auto
termination
  by (relation "measure (\<lambda>(lt, data, a, j). nat (j - a))") auto

declare insertion_inner.simps [simp del]

function insertion_outer :: "('a \<Rightarrow> 'a \<Rightarrow> bool) \<Rightarrow> 'a list \<Rightarrow> int \<Rightarrow> int \<Rightarrow> int \<Rightarrow> 'a list" where
  "insertion_outer lt data a b i =
     (if i < b then insertion_outer lt (insertion_inner lt data a i) a b (i + 1) else data)"
  by pat_completeness auto
termination
  by (relation "measure (\<lambda>(lt, data, a, b, i). nat (b - i))") auto

declare insertion_outer.simps [simp del]

definition insertionSort_func :: "('a \<Rightarrow> 'a \<Rightarrow> bool) \<Rightarrow> 'a list \<Rightarrow> int \<Rightarrow> int \<Rightarrow> 'a list" where
  "insertionSort_func lt data a b = insertion_outer lt data a b (a + 1)"

text \<open>
  \<^verbatim>\<open>choosePivot_func\<close>: the median of three for 8 to 49 elements. The ninther for 50
  elements and more is not covered (\<open>None\<close>).
\<close>

datatype sortedHint = unknownHint | increasingHint | decreasingHint

definition order2_func ::
  "('a \<Rightarrow> 'a \<Rightarrow> bool) \<Rightarrow> 'a list \<Rightarrow> int \<Rightarrow> int \<Rightarrow> int \<Rightarrow> int \<times> int \<times> int" where
  "order2_func lt data a b swaps =
     (if lt (data ! nat b) (data ! nat a) then (b, a, swaps + 1) else (a, b, swaps))"

definition median_func ::
  "('a \<Rightarrow> 'a \<Rightarrow> bool) \<Rightarrow> 'a list \<Rightarrow> int \<Rightarrow> int \<Rightarrow> int \<Rightarrow> int \<Rightarrow> int \<times> int" where
  "median_func lt data a b c swaps =
     (case order2_func lt data a b swaps of (a1, b1, swaps1) \<Rightarrow>
      case order2_func lt data b1 c swaps1 of (b2, c2, swaps2) \<Rightarrow>
      case order2_func lt data a1 b2 swaps2 of (a3, b3, swaps3) \<Rightarrow>
      (b3, swaps3))"

definition choosePivot_func ::
  "('a \<Rightarrow> 'a \<Rightarrow> bool) \<Rightarrow> 'a list \<Rightarrow> int \<Rightarrow> int \<Rightarrow> (int \<times> sortedHint) option" where
  "choosePivot_func lt data a b =
     (let l = b - a;
          i = a + l div 4 * 1;
          j = a + l div 4 * 2;
          k = a + l div 4 * 3
      in if l \<ge> 50 then None
         else
           (case (if l \<ge> 8 then median_func lt data i j k 0 else (j, 0)) of
              (j', swaps) \<Rightarrow>
                Some (j', if swaps = 0 then increasingHint
                          else if swaps = 4 * 3 then decreasingHint
                          else unknownHint)))"

text \<open>
  \<^verbatim>\<open>partialInsertionSort_func\<close>: it scans for the first element out of order,
  returns true when there is none, and false without moving anything on fewer than 50
  elements. The shifting on 50 elements and more is not covered (\<open>None\<close>).
\<close>

function scan_sorted :: "('a \<Rightarrow> 'a \<Rightarrow> bool) \<Rightarrow> 'a list \<Rightarrow> int \<Rightarrow> int \<Rightarrow> int" where
  "scan_sorted lt data b i =
     (if i < b \<and> \<not> lt (data ! nat i) (data ! nat (i - 1))
      then scan_sorted lt data b (i + 1) else i)"
  by pat_completeness auto
termination
  by (relation "measure (\<lambda>(lt, data, b, i). nat (b - i))") auto

declare scan_sorted.simps [simp del]

definition partialInsertionSort_func ::
  "('a \<Rightarrow> 'a \<Rightarrow> bool) \<Rightarrow> 'a list \<Rightarrow> int \<Rightarrow> int \<Rightarrow> bool option" where
  "partialInsertionSort_func lt data a b =
     (let i = scan_sorted lt data b (a + 1) in
      if i = b then Some True
      else if b - a < 50 then Some False
      else None)"

text \<open>
  The two inner loops of the partitions: \<^verbatim>\<open>for i <= j && cond(i) { i++ }\<close> and
  \<^verbatim>\<open>for i <= j && cond(j) { j-- }\<close>.
\<close>

function scan_up :: "(int \<Rightarrow> bool) \<Rightarrow> int \<Rightarrow> int \<Rightarrow> int" where
  "scan_up goes i j = (if i \<le> j \<and> goes i then scan_up goes (i + 1) j else i)"
  by pat_completeness auto
termination
  by (relation "measure (\<lambda>(goes, i, j). nat (j + 1 - i))") auto

declare scan_up.simps [simp del]

function scan_down :: "(int \<Rightarrow> bool) \<Rightarrow> int \<Rightarrow> int \<Rightarrow> int" where
  "scan_down goes i j = (if i \<le> j \<and> goes j then scan_down goes i (j - 1) else j)"
  by pat_completeness auto
termination
  by (relation "measure (\<lambda>(goes, i, j). nat (j + 1 - i))") auto

declare scan_down.simps [simp del]

lemma scan_up_ge: "i \<le> scan_up goes i j"
  by (induction goes i j rule: scan_up.induct) (subst scan_up.simps, auto)

lemma scan_down_le: "scan_down goes i j \<le> j"
  by (induction goes i j rule: scan_down.induct) (subst scan_down.simps, auto)

function partition_loop ::
  "('a \<Rightarrow> 'a \<Rightarrow> bool) \<Rightarrow> 'a list \<Rightarrow> int \<Rightarrow> int \<Rightarrow> int \<Rightarrow> 'a list \<times> int" where
  "partition_loop lt data a i j =
     (let i1 = scan_up (\<lambda>i. lt (data ! nat i) (data ! nat a)) i j;
          j1 = scan_down (\<lambda>j. \<not> lt (data ! nat j) (data ! nat a)) i1 j
      in if i1 > j1 then (data, j1)
         else partition_loop lt (swap data i1 j1) a (i1 + 1) (j1 - 1))"
  by pat_completeness auto
termination
proof (relation "measure (\<lambda>(lt, data, a, i, j). nat (j + 1 - i))", goal_cases)
  case 1
  then show ?case by simp
next
  case (2 lt data a i j i1 j1)
  then show ?case
    using scan_up_ge [of i "\<lambda>i. lt (data ! nat i) (data ! nat a)" j]
      scan_down_le [of "\<lambda>j. \<not> lt (data ! nat j) (data ! nat a)" i1 j]
    by simp
qed

declare partition_loop.simps [simp del]

definition partition_func ::
  "('a \<Rightarrow> 'a \<Rightarrow> bool) \<Rightarrow> 'a list \<Rightarrow> int \<Rightarrow> int \<Rightarrow> int \<Rightarrow> 'a list \<times> int \<times> bool" where
  "partition_func lt data0 a b pivot =
     (let data = swap data0 a pivot;
          i = scan_up (\<lambda>i. lt (data ! nat i) (data ! nat a)) (a + 1) (b - 1);
          j = scan_down (\<lambda>j. \<not> lt (data ! nat j) (data ! nat a)) i (b - 1)
      in if i > j then (swap data j a, j, True)
         else
           (case partition_loop lt (swap data i j) a (i + 1) (j - 1) of
              (data', j') \<Rightarrow> (swap data' j' a, j', False)))"

function partitionEqual_loop ::
  "('a \<Rightarrow> 'a \<Rightarrow> bool) \<Rightarrow> 'a list \<Rightarrow> int \<Rightarrow> int \<Rightarrow> int \<Rightarrow> 'a list \<times> int" where
  "partitionEqual_loop lt data a i j =
     (let i1 = scan_up (\<lambda>i. \<not> lt (data ! nat a) (data ! nat i)) i j;
          j1 = scan_down (\<lambda>j. lt (data ! nat a) (data ! nat j)) i1 j
      in if i1 > j1 then (data, i1)
         else partitionEqual_loop lt (swap data i1 j1) a (i1 + 1) (j1 - 1))"
  by pat_completeness auto
termination
proof (relation "measure (\<lambda>(lt, data, a, i, j). nat (j + 1 - i))", goal_cases)
  case 1
  then show ?case by simp
next
  case (2 lt data a i j i1 j1)
  then show ?case
    using scan_up_ge [of i "\<lambda>i. \<not> lt (data ! nat a) (data ! nat i)" j]
      scan_down_le [of "\<lambda>j. lt (data ! nat a) (data ! nat j)" i1 j]
    by simp
qed

declare partitionEqual_loop.simps [simp del]

definition partitionEqual_func ::
  "('a \<Rightarrow> 'a \<Rightarrow> bool) \<Rightarrow> 'a list \<Rightarrow> int \<Rightarrow> int \<Rightarrow> int \<Rightarrow> 'a list \<times> int" where
  "partitionEqual_func lt data0 a b pivot =
     partitionEqual_loop lt (swap data0 a pivot) a (a + 1) (b - 1)"

text \<open>
  \<^verbatim>\<open>pdqsort_func\<close>. Its loop continues on one side of the pivot after the call on
  the other side; here both are calls, bounded by \<open>fuel\<close>. The result is \<open>None\<close> when the
  fuel runs out and on the paths that are not covered: after an unbalanced partition
  (\<^verbatim>\<open>breakPatterns_func\<close>, and with it the countdown of \<^verbatim>\<open>limit\<close> to the heap sort),
  on 50 elements and more, and on a decreasing hint (which needs the ninther).
\<close>

fun pdqsort_func ::
  "nat \<Rightarrow> ('a \<Rightarrow> 'a \<Rightarrow> bool) \<Rightarrow> 'a list \<Rightarrow> int \<Rightarrow> int \<Rightarrow> bool \<Rightarrow> bool \<Rightarrow> 'a list option" where
  "pdqsort_func 0 lt data a b wasBalanced wasPartitioned = None"
| "pdqsort_func (Suc fuel) lt data a b wasBalanced wasPartitioned =
     (let length' = b - a in
      if length' \<le> 12 then Some (insertionSort_func lt data a b)
      else if \<not> wasBalanced then None
      else
        (case choosePivot_func lt data a b of
           None \<Rightarrow> None
         | Some (pivot, hint) \<Rightarrow>
             if hint = decreasingHint then None
             else if wasBalanced \<and> wasPartitioned \<and> hint = increasingHint
                     \<and> partialInsertionSort_func lt data a b = None then None
             else if wasBalanced \<and> wasPartitioned \<and> hint = increasingHint
                     \<and> partialInsertionSort_func lt data a b = Some True then Some data
             else if a > 0 \<and> \<not> lt (data ! nat (a - 1)) (data ! nat pivot) then
               (case partitionEqual_func lt data a b pivot of
                  (data1, mid) \<Rightarrow>
                    pdqsort_func fuel lt data1 mid b wasBalanced wasPartitioned)
             else
               (case partition_func lt data a b pivot of
                  (data1, mid, alreadyPartitioned) \<Rightarrow>
                    let leftLen = mid - a;
                        rightLen = b - mid;
                        balanceThreshold = length' div 8
                    in if leftLen < rightLen then
                         (case pdqsort_func fuel lt data1 a mid True True of
                            None \<Rightarrow> None
                          | Some data2 \<Rightarrow>
                              pdqsort_func fuel lt data2 (mid + 1) b
                                (leftLen \<ge> balanceThreshold) alreadyPartitioned)
                       else
                         (case pdqsort_func fuel lt data1 (mid + 1) b True True of
                            None \<Rightarrow> None
                          | Some data2 \<Rightarrow>
                              pdqsort_func fuel lt data2 a mid
                                (rightLen \<ge> balanceThreshold) alreadyPartitioned))))"

text \<open>\<^verbatim>\<open>sort.Slice(x, less)\<close> is \<^verbatim>\<open>pdqsort_func\<close> on the whole slice.\<close>

definition sort_Slice_go :: "('a \<Rightarrow> 'a \<Rightarrow> bool) \<Rightarrow> 'a list \<Rightarrow> 'a list option" where
  "sort_Slice_go lt x =
     pdqsort_func (Suc (length x)) lt x 0 (int (length x)) True True"

text \<open>The library instance with this \<^verbatim>\<open>sort.Slice\<close>.\<close>

definition go_lib :: lib where
  "go_lib =
     small_lib\<lparr>sort_Slice :=
       (\<lambda>lt x. case sort_Slice_go lt x of Some y \<Rightarrow> y | None \<Rightarrow> x)\<rparr>"

section \<open>Example data\<close>

definition task_of :: "goint \<Rightarrow> bool \<Rightarrow> Priority \<Rightarrow> time option \<Rightarrow> Task" where
  "task_of i done p due =
     \<lparr>ID = i, Title = ''task'', Completed = done, DueDate = due, Priority = p,
      CreatedAt = 10, UpdatedAt = 10\<rparr>"

text \<open>A hand-edited document: one task, whose priority is none of the three levels.\<close>

definition urgent_document :: TaskList where
  "urgent_document =
     \<lparr>Tasks = [Some (task_of 1 False ''urgent'' None)], NextID = 2, LastUpdate = ''me''\<rparr>"

definition two_tasks :: Manager where
  "two_tasks =
     \<lparr>tasks = [task_of 1 False ''low'' None, task_of 2 True ''high'' (Some 50)], nextID = 3\<rparr>"

text \<open>
  Two hand-edited documents: one without the \<^verbatim>\<open>next_id\<close> field, and one whose
  \<^verbatim>\<open>next_id\<close> is below the id of a task.
\<close>

definition legacy_document :: TaskList where
  "legacy_document =
     \<lparr>Tasks = [Some (task_of 3 False ''low'' None), Some (task_of 1 True ''high'' None)],
      NextID = 0, LastUpdate = []\<rparr>"

definition stale_document :: TaskList where
  "stale_document =
     \<lparr>Tasks = [Some (task_of 5 False ''low'' None)], NextID = 2, LastUpdate = ''me''\<rparr>"




text \<open>The scenarios of the specification start from tasks 1, 2, 3.\<close>

definition three_tasks :: Manager where
  "three_tasks =
     \<lparr>tasks = [task_of 1 False ''low'' None, task_of 2 False ''high'' None,
               task_of 3 False ''medium'' None], nextID = 4\<rparr>"


text \<open>Twelve tasks of medium priority, then one of high priority.\<close>

definition thirteen_tasks :: Manager where
  "thirteen_tasks =
     \<lparr>tasks = map (\<lambda>i. task_of i False ''medium'' None) [1, 2, 3, 4, 5, 6, 7, 8, 9, 10, 11, 12]
               @ [task_of 13 False ''high'' None],
      nextID = 14\<rparr>"

definition by_priority :: FilterOptions where
  "by_priority =
     \<lparr>ShowCompleted = True, ShowPending = True, Priority_f = [], Search = [],
      SortBy = ''priority''\<rparr>"

definition by_due :: FilterOptions where
  "by_due =
     \<lparr>ShowCompleted = True, ShowPending = True, Priority_f = [], Search = [],
      SortBy = ''due''\<rparr>"

text \<open>Four tasks, two of them with a due date.\<close>

definition due_tasks :: Manager where
  "due_tasks =
     \<lparr>tasks = [task_of 3 False ''low'' None, task_of 2 False ''low'' (Some 50),
               task_of 1 True ''high'' None, task_of 4 False ''medium'' (Some 20)],
      nextID = 5\<rparr>"

section \<open>Properties of the task entity\<close>

text \<open>
  Claim C9. For every task and every current time, \<^verbatim>\<open>IsOverdue\<close> is true if and only if
  the task has a due date, is not completed, and the due date is strictly before the
  current time; a completed task is never overdue, whatever its due date.
\<close>

theorem IsOverdue_iff:
  "IsOverdue now t = (\<exists>d. DueDate t = Some d \<and> \<not> Completed t \<and> d < now)
   \<and> IsOverdue now (t\<lparr>Completed := True\<rparr>) = False"
  by (cases "DueDate t") (simp_all add: IsOverdue_def)

section \<open>The library instance meets the contract of sort.Slice\<close>

lemma mset_insert_sorted: "mset (insert_sorted lt x ys) = add_mset x (mset ys)"
  by (induction ys) simp_all

lemma mset_insertion_sort: "mset (insertion_sort lt xs) = mset xs"
  by (induction xs) (simp_all add: mset_insert_sorted)

lemma set_insert_sorted: "set (insert_sorted lt x ys) = insert x (set ys)"
  by (induction ys) auto

lemma sorted_insert_sorted:
  assumes swo: "strict_weak_order lt"
    and srt: "sorted_wrt (\<lambda>a b. \<not> lt b a) ys"
  shows "sorted_wrt (\<lambda>a b. \<not> lt b a) (insert_sorted lt x ys)"
  using srt
proof (induction ys)
  case Nil
  then show ?case by simp
next
  case (Cons y ys)
  from swo have irr: "\<And>a. \<not> lt a a"
    and tr: "\<And>a b c. lt a b \<Longrightarrow> lt b c \<Longrightarrow> lt a c"
    and nt: "\<And>a b c. lt a c \<Longrightarrow> lt a b \<or> lt b c"
    unfolding strict_weak_order_def by blast+
  show ?case
  proof (cases "lt y x")
    case True
    then have "\<not> lt x y" using irr tr by blast
    with True Cons show ?thesis by (auto simp: set_insert_sorted)
  next
    case False
    have "\<not> lt z x" if "z \<in> set ys" for z
    proof
      assume "lt z x"
      then have "lt z y \<or> lt y x" by (rule nt)
      with False that Cons.prems show False by auto
    qed
    with False Cons.prems show ?thesis by auto
  qed
qed

lemma sorted_insertion_sort:
  "strict_weak_order lt \<Longrightarrow> sorted_wrt (\<lambda>a b. \<not> lt b a) (insertion_sort lt xs)"
  by (induction xs) (simp_all add: sorted_insert_sorted)

lemma small_lib_permutes: "sort_Slice_permutes small_lib"
  by (simp add: sort_Slice_permutes_def small_lib_def mset_insertion_sort)

lemma small_lib_sorts: "sort_Slice_sorts small_lib"
  by (simp add: sort_Slice_sorts_def small_lib_def sorted_insertion_sort)

lemma small_lib_contract: "sort_Slice_contract small_lib"
  by (simp add: sort_Slice_contract_def small_lib_permutes small_lib_sorts)

section \<open>Adding and completing tasks\<close>

text \<open>
  Claim C7. For every state and every title that is empty after trimming, \<^verbatim>\<open>AddTask\<close>
  fails with the validation error "task title cannot be empty" and returns the state as
  it was: no task is created, the collection and \<^verbatim>\<open>nextID\<close> are unchanged.
\<close>

theorem AddTask_empty_title:
  "strings_TrimSpace L title = [] \<Longrightarrow>
   AddTask L clk env m title priority dueDate = (Inl ErrTitleEmpty, m)"
  by (simp add: AddTask_def)

theorem AddTask_empty_title_witness:
  "strings_TrimSpace small_lib '' '' = [] \<and>
   AddTask small_lib (\<lambda>k. 100) SaveSucceeds NewManager '' '' ''high'' None
     = (Inl ErrTitleEmpty, \<lparr>tasks = [], nextID = 1\<rparr>)"
proof -
  have h: "strings_TrimSpace small_lib '' '' = []"
    by (simp add: small_lib_def TrimSpace_ascii_def is_space_ascii_def)
  show ?thesis
    using h AddTask_empty_title [OF h, of "\<lambda>k. 100" SaveSucceeds NewManager "''high''" None]
    by (simp add: NewManager_def)
qed

lemma find_by_id_Some:
  "find_by_id ts id' = Some i \<Longrightarrow> i < length ts \<and> ID (ts ! i) = id'"
  by (induction ts arbitrary: i) (auto split: if_splits)






text \<open>
  Claim C10. For every state, every title that is not empty after trimming and every due
  date, \<^verbatim>\<open>AddTask\<close> with the empty string as priority meets no validation error: it
  returns a task of priority medium, and the only error it can return is the one of a
  failed save.
\<close>

theorem AddTask_empty_priority:
  assumes "strings_TrimSpace L title \<noteq> []"
  shows "(case fst (AddTask L clk env m title [] dueDate) of
            Inr task \<Rightarrow> Priority task = PriorityMedium \<and> env = SaveSucceeds
          | Inl err \<Rightarrow> env \<noteq> SaveSucceeds \<and> (\<exists>e. err = ErrSaveFailed e))"
  using assms
  by (cases env; cases dueDate)
     (simp_all add: AddTask_def Let_def SaveTasks_def FileStorage_SaveTasks_def
        NewTask_def SetDueDate_def)

theorem AddTask_empty_priority_witness:
  "strings_TrimSpace small_lib '' Buy milk '' \<noteq> [] \<and>
   AddTask small_lib (\<lambda>k. 100) SaveSucceeds NewManager '' Buy milk '' [] None
     = (Inr \<lparr>ID = 1, Title = ''Buy milk'', Completed = False, DueDate = None,
              Priority = ''medium'', CreatedAt = 100, UpdatedAt = 100\<rparr>,
        \<lparr>tasks = [\<lparr>ID = 1, Title = ''Buy milk'', Completed = False, DueDate = None,
              Priority = ''medium'', CreatedAt = 100, UpdatedAt = 100\<rparr>], nextID = 2\<rparr>)"
proof -
  have h: "strings_TrimSpace small_lib '' Buy milk '' \<noteq> []"
    by (simp add: small_lib_def TrimSpace_ascii_def is_space_ascii_def)
  have e: "AddTask small_lib (\<lambda>k. 100) SaveSucceeds NewManager '' Buy milk '' [] None
     = (Inr \<lparr>ID = 1, Title = ''Buy milk'', Completed = False, DueDate = None,
              Priority = ''medium'', CreatedAt = 100, UpdatedAt = 100\<rparr>,
        \<lparr>tasks = [\<lparr>ID = 1, Title = ''Buy milk'', Completed = False, DueDate = None,
              Priority = ''medium'', CreatedAt = 100, UpdatedAt = 100\<rparr>], nextID = 2\<rparr>)"
    by (simp add: AddTask_def small_lib_def TrimSpace_ascii_def is_space_ascii_def
        NewManager_def NewTask_def PriorityMedium_def SaveTasks_def FileStorage_SaveTasks_def Let_def)
  show ?thesis
    using h e AddTask_empty_priority [OF h, where clk = "\<lambda>k. 100" and env = SaveSucceeds and m = NewManager and dueDate = None]
    by simp
qed

section \<open>Statistics\<close>

lemma body_total: "map_index (GetStats_body now t st) ''total'' = map_index st ''total''"
  by (simp add: GetStats_body_def Let_def incr_def map_index_def)

lemma body_completed:
  "map_index (GetStats_body now t st) ''completed''
     = map_index st ''completed'' + (if Completed t then 1 else 0)"
  by (simp add: GetStats_body_def Let_def incr_def map_index_def)

lemma body_pending:
  "map_index (GetStats_body now t st) ''pending''
     = map_index st ''pending'' + (if Completed t then 0 else 1)"
  by (simp add: GetStats_body_def Let_def incr_def map_index_def)

lemma body_overdue:
  "map_index (GetStats_body now t st) ''overdue''
     = map_index st ''overdue'' + (if \<not> Completed t \<and> IsOverdue now t then 1 else 0)"
  by (simp add: GetStats_body_def Let_def incr_def map_index_def)

lemma body_high:
  "map_index (GetStats_body now t st) ''high''
     = map_index st ''high'' + (if Priority t = PriorityHigh then 1 else 0)"
  by (simp add: GetStats_body_def Let_def incr_def map_index_def)

lemma body_medium:
  "map_index (GetStats_body now t st) ''medium''
     = map_index st ''medium'' + (if Priority t = PriorityMedium then 1 else 0)"
  by (simp add: GetStats_body_def Let_def incr_def map_index_def PriorityHigh_def
      PriorityMedium_def)

lemma body_low:
  "map_index (GetStats_body now t st) ''low''
     = map_index st ''low'' + (if Priority t = PriorityLow then 1 else 0)"
  by (simp add: GetStats_body_def Let_def incr_def map_index_def PriorityHigh_def
      PriorityMedium_def PriorityLow_def)

lemma loop_total:
  "map_index (GetStats_loop clk k ts st) ''total'' = map_index st ''total''"
  by (induction ts arbitrary: st k) (simp_all add: body_total)

lemma loop_completed:
  "map_index (GetStats_loop clk k ts st) ''completed''
     = map_index st ''completed'' + int (length (filter Completed ts))"
  by (induction ts arbitrary: st k) (simp_all add: body_completed)

lemma loop_pending:
  "map_index (GetStats_loop clk k ts st) ''pending''
     = map_index st ''pending'' + int (length (filter (\<lambda>t. \<not> Completed t) ts))"
  by (induction ts arbitrary: st k) (simp_all add: body_pending)

lemma loop_overdue:
  "map_index st ''overdue'' \<le> map_index (GetStats_loop clk k ts st) ''overdue'' \<and>
   map_index (GetStats_loop clk k ts st) ''overdue''
     \<le> map_index st ''overdue'' + int (length (filter (\<lambda>t. \<not> Completed t) ts))"
proof (induction ts arbitrary: st k)
  case Nil
  then show ?case by simp
next
  case (Cons t ts)
  let ?k = "if Completed t \<or> DueDate t = None then k else Suc k"
  from Cons.IH [of "GetStats_body (clk k) t st" ?k]
  show ?case
    by (auto simp: body_overdue split: if_splits)
qed

lemma loop_high:
  "map_index (GetStats_loop clk k ts st) ''high''
     = map_index st ''high'' + int (length (filter (\<lambda>t. Priority t = PriorityHigh) ts))"
  by (induction ts arbitrary: st k) (simp_all add: body_high)

lemma loop_medium:
  "map_index (GetStats_loop clk k ts st) ''medium''
     = map_index st ''medium'' + int (length (filter (\<lambda>t. Priority t = PriorityMedium) ts))"
  by (induction ts arbitrary: st k) (simp_all add: body_medium)

lemma loop_low:
  "map_index (GetStats_loop clk k ts st) ''low''
     = map_index st ''low'' + int (length (filter (\<lambda>t. Priority t = PriorityLow) ts))"
  by (induction ts arbitrary: st k) (simp_all add: body_low)

lemma length_filter_compl:
  "length (filter P xs) + length (filter (\<lambda>x. \<not> P x) xs) = length xs"
  by (induction xs) simp_all

lemma priority_partition:
  "length (filter (\<lambda>t. Priority t = PriorityHigh) ts)
   + length (filter (\<lambda>t. Priority t = PriorityMedium) ts)
   + length (filter (\<lambda>t. Priority t = PriorityLow) ts)
   = length (filter (\<lambda>t. ValidatePriority (Priority t)) ts)"
  by (induction ts)
     (auto simp: ValidatePriority_def PriorityHigh_def PriorityMedium_def PriorityLow_def)

text \<open>
  Claim C3, as amended. For every task collection the counts of \<^verbatim>\<open>GetStats\<close> satisfy:
  total is the size of the whole collection, completed + pending = total, and
  overdue \<le> pending. high + medium + low is the number of tasks whose priority is one of
  low, medium, high: it is at most total, and it is total when every task has such a
  priority.
\<close>

theorem GetStats_counts:
  "map_index (GetStats clk m) ''total'' = int (length (tasks m))
   \<and> map_index (GetStats clk m) ''completed'' + map_index (GetStats clk m) ''pending''
       = map_index (GetStats clk m) ''total''
   \<and> 0 \<le> map_index (GetStats clk m) ''overdue''
   \<and> map_index (GetStats clk m) ''overdue'' \<le> map_index (GetStats clk m) ''pending''
   \<and> map_index (GetStats clk m) ''high'' + map_index (GetStats clk m) ''medium''
       + map_index (GetStats clk m) ''low''
       = int (length (filter (\<lambda>t. ValidatePriority (Priority t)) (tasks m)))
   \<and> map_index (GetStats clk m) ''high'' + map_index (GetStats clk m) ''medium''
       + map_index (GetStats clk m) ''low'' \<le> map_index (GetStats clk m) ''total''
   \<and> ((\<forall>t \<in> set (tasks m). ValidatePriority (Priority t)) \<longrightarrow>
        map_index (GetStats clk m) ''high'' + map_index (GetStats clk m) ''medium''
          + map_index (GetStats clk m) ''low'' = map_index (GetStats clk m) ''total'')"
proof -
  let ?init = "[''total'' \<mapsto> int (length (tasks m)), ''completed'' \<mapsto> 0, ''pending'' \<mapsto> 0,
        ''overdue'' \<mapsto> 0, ''high'' \<mapsto> 0, ''medium'' \<mapsto> 0, ''low'' \<mapsto> (0::int)]"
  have i: "map_index ?init ''total'' = int (length (tasks m))"
    "map_index ?init ''completed'' = 0" "map_index ?init ''pending'' = 0"
    "map_index ?init ''overdue'' = 0" "map_index ?init ''high'' = 0"
    "map_index ?init ''medium'' = 0" "map_index ?init ''low'' = 0"
    by (simp_all add: map_index_def)
  have tot: "map_index (GetStats clk m) ''total'' = int (length (tasks m))"
    unfolding GetStats_def loop_total i ..
  have co: "map_index (GetStats clk m) ''completed'' = int (length (filter Completed (tasks m)))"
    unfolding GetStats_def loop_completed i by simp
  have pe: "map_index (GetStats clk m) ''pending''
      = int (length (filter (\<lambda>t. \<not> Completed t) (tasks m)))"
    unfolding GetStats_def loop_pending i by simp
  have ov: "0 \<le> map_index (GetStats clk m) ''overdue'' \<and>
      map_index (GetStats clk m) ''overdue''
        \<le> int (length (filter (\<lambda>t. \<not> Completed t) (tasks m)))"
    using loop_overdue [of ?init clk 0 "tasks m"] unfolding GetStats_def i by simp
  have hi: "map_index (GetStats clk m) ''high''
      = int (length (filter (\<lambda>t. Priority t = PriorityHigh) (tasks m)))"
    unfolding GetStats_def loop_high i by simp
  have me: "map_index (GetStats clk m) ''medium''
      = int (length (filter (\<lambda>t. Priority t = PriorityMedium) (tasks m)))"
    unfolding GetStats_def loop_medium i by simp
  have lo: "map_index (GetStats clk m) ''low''
      = int (length (filter (\<lambda>t. Priority t = PriorityLow) (tasks m)))"
    unfolding GetStats_def loop_low i by simp
  have sum: "map_index (GetStats clk m) ''high'' + map_index (GetStats clk m) ''medium''
       + map_index (GetStats clk m) ''low''
       = int (length (filter (\<lambda>t. ValidatePriority (Priority t)) (tasks m)))"
    unfolding hi me lo using priority_partition [of "tasks m"] by linarith
  have all: "(\<forall>t \<in> set (tasks m). ValidatePriority (Priority t)) \<longrightarrow>
      length (filter (\<lambda>t. ValidatePriority (Priority t)) (tasks m)) = length (tasks m)"
    by simp
  show ?thesis
    unfolding sum unfolding tot co pe
    using ov pe all length_filter_compl [of Completed "tasks m"]
      length_filter_le [of "\<lambda>t. ValidatePriority (Priority t)" "tasks m"]
    by simp
qed

theorem GetStats_counts_witness:
  "ValidatePriority (Priority (tasks two_tasks ! 0))
   \<and> ValidatePriority (Priority (tasks two_tasks ! 1))
   \<and> map_index (GetStats (\<lambda>k. 100) two_tasks) ''total'' = 2
   \<and> map_index (GetStats (\<lambda>k. 100) two_tasks) ''completed'' = 1
   \<and> map_index (GetStats (\<lambda>k. 100) two_tasks) ''pending'' = 1
   \<and> map_index (GetStats (\<lambda>k. 100) two_tasks) ''high''
       + map_index (GetStats (\<lambda>k. 100) two_tasks) ''medium''
       + map_index (GetStats (\<lambda>k. 100) two_tasks) ''low''
     = map_index (GetStats (\<lambda>k. 100) two_tasks) ''total''"
proof -
  have v: "\<forall>t \<in> set (tasks two_tasks). ValidatePriority (Priority t)"
    by (simp add: two_tasks_def task_of_def ValidatePriority_def PriorityLow_def
        PriorityHigh_def)
  have c: "map_index (GetStats (\<lambda>k. 100) two_tasks) ''completed'' = 1"
    by (simp add: GetStats_def GetStats_body_def two_tasks_def task_of_def incr_def
        map_index_def Let_def IsOverdue_def PriorityLow_def PriorityHigh_def
        PriorityMedium_def)
  show ?thesis
    using v c GetStats_counts [of "\<lambda>k. 100" two_tasks]
    by (simp add: two_tasks_def task_of_def)
qed

text \<open>
  The claim as stated fails on a collection that \<^verbatim>\<open>LoadTasks\<close> accepts: the stored
  priority is converted without validation, and the \<^verbatim>\<open>switch\<close> of \<^verbatim>\<open>GetStats\<close>
  counts such a task under none of high, medium, low.
\<close>

theorem GetStats_priority_sum_counterexample:
  "LoadTasks (Unmarshalled urgent_document) NewManager
     = Ok \<lparr>tasks = [task_of 1 False ''urgent'' None], nextID = 2\<rparr>
   \<and> map_index (GetStats (\<lambda>k. 100) \<lparr>tasks = [task_of 1 False ''urgent'' None], nextID = 2\<rparr>)
        ''high''
     + map_index (GetStats (\<lambda>k. 100) \<lparr>tasks = [task_of 1 False ''urgent'' None], nextID = 2\<rparr>)
        ''medium''
     + map_index (GetStats (\<lambda>k. 100) \<lparr>tasks = [task_of 1 False ''urgent'' None], nextID = 2\<rparr>)
        ''low''
     \<noteq> map_index (GetStats (\<lambda>k. 100) \<lparr>tasks = [task_of 1 False ''urgent'' None], nextID = 2\<rparr>)
        ''total''"
  by (simp add: LoadTasks_def FileStorage_LoadTasks_def urgent_document_def NewManager_def
      task_of_def GetStats_def GetStats_body_def incr_def map_index_def Let_def
      IsOverdue_def PriorityLow_def PriorityHigh_def PriorityMedium_def)

section \<open>Listing: the filters\<close>

lemma filter_loop_eq:
  "filter_loop L f ts acc = acc @ filter (passes_filter L f) ts"
  by (induction ts arbitrary: acc) simp_all

lemma passes_filter_iff:
  "passes_filter L f t =
     ((ShowCompleted f \<and> \<not> ShowPending f \<longrightarrow> Completed t) \<and>
      (ShowPending f \<and> \<not> ShowCompleted f \<longrightarrow> \<not> Completed t) \<and>
      other_filters L f t)"
  by (auto simp: passes_filter_def other_filters_def)

lemma mset_sortTasks: "sort_Slice_permutes L \<Longrightarrow> mset (sortTasks L ts sortBy) = mset ts"
  by (simp add: sortTasks_def sort_Slice_permutes_def)

lemma mset_ListTasks:
  "sort_Slice_permutes L \<Longrightarrow>
   mset (ListTasks L m f) = mset (filter (passes_filter L f) (tasks m))"
  by (simp add: ListTasks_def mset_sortTasks filter_loop_eq)

text \<open>
  Claim C4. Whatever the sort does with the order, \<^verbatim>\<open>ListTasks\<close> returns, each as often
  as the collection holds it: with exactly one of \<^verbatim>\<open>ShowCompleted\<close> and \<^verbatim>\<open>ShowPending\<close>
  set, exactly the tasks of that completion status that pass the priority and search
  filters; with both set or both unset, exactly the tasks that pass the priority and
  search filters; so with both unset and no priority and no search filter, the whole
  collection.
\<close>

theorem ListTasks_completion_filter:
  assumes "sort_Slice_permutes L"
  shows "(ShowCompleted f \<and> \<not> ShowPending f \<longrightarrow>
            mset (ListTasks L m f)
              = mset (filter (\<lambda>t. Completed t \<and> other_filters L f t) (tasks m)))
       \<and> (ShowPending f \<and> \<not> ShowCompleted f \<longrightarrow>
            mset (ListTasks L m f)
              = mset (filter (\<lambda>t. \<not> Completed t \<and> other_filters L f t) (tasks m)))
       \<and> (ShowCompleted f = ShowPending f \<longrightarrow>
            mset (ListTasks L m f) = mset (filter (other_filters L f) (tasks m)))
       \<and> (\<not> ShowCompleted f \<and> \<not> ShowPending f \<and> Priority_f f = [] \<and> Search f = [] \<longrightarrow>
            mset (ListTasks L m f) = mset (tasks m))"
proof -
  have one: "ShowCompleted f \<and> \<not> ShowPending f \<Longrightarrow>
      passes_filter L f = (\<lambda>t. Completed t \<and> other_filters L f t)"
    by (auto simp: passes_filter_iff)
  have other: "ShowPending f \<and> \<not> ShowCompleted f \<Longrightarrow>
      passes_filter L f = (\<lambda>t. \<not> Completed t \<and> other_filters L f t)"
    by (auto simp: passes_filter_iff)
  have both: "ShowCompleted f = ShowPending f \<Longrightarrow> passes_filter L f = other_filters L f"
    by (auto simp: passes_filter_iff)
  have none: "\<not> ShowCompleted f \<and> \<not> ShowPending f \<and> Priority_f f = [] \<and> Search f = [] \<Longrightarrow>
      passes_filter L f = (\<lambda>t. True)"
    by (auto simp: passes_filter_iff other_filters_def)
  show ?thesis
    using one other both none by (simp add: mset_ListTasks [OF assms])
qed

theorem ListTasks_completion_filter_witness:
  "ListTasks small_lib two_tasks
     \<lparr>ShowCompleted = True, ShowPending = False, Priority_f = [], Search = [], SortBy = []\<rparr>
     = [task_of 2 True ''high'' (Some 50)]
   \<and> mset (ListTasks small_lib two_tasks
       \<lparr>ShowCompleted = False, ShowPending = False, Priority_f = [], Search = [], SortBy = []\<rparr>)
     = mset (tasks two_tasks)"
proof -
  let ?f = "\<lparr>ShowCompleted = True, ShowPending = False, Priority_f = [], Search = [],
             SortBy = []\<rparr>"
  let ?g = "\<lparr>ShowCompleted = False, ShowPending = False, Priority_f = [], Search = [],
             SortBy = []\<rparr>"
  have "mset (ListTasks small_lib two_tasks ?f)
      = mset (filter (\<lambda>t. Completed t \<and> other_filters small_lib ?f t) (tasks two_tasks))"
    using ListTasks_completion_filter [OF small_lib_permutes, of ?f two_tasks] by simp
  then have "mset (ListTasks small_lib two_tasks ?f) = {#task_of 2 True ''high'' (Some 50)#}"
    by (simp add: two_tasks_def task_of_def other_filters_def)
  moreover have "mset (ListTasks small_lib two_tasks ?g) = mset (tasks two_tasks)"
    using ListTasks_completion_filter [OF small_lib_permutes, of ?g two_tasks,
        THEN conjunct2, THEN conjunct2, THEN conjunct2]
    by simp
  ultimately show ?thesis by simp
qed

section \<open>The watermark invariant\<close>


lemma sint_range: "- (2 ^ 63) \<le> sint (x :: goint) \<and> sint x < 2 ^ 63"
  using sint_ge [of x] sint_lt [of x] by simp

lemma sint_inject: "sint (x :: goint) = sint y \<Longrightarrow> x = y"
  by (simp add: signed.order.antisym word_sle_eq)

lemma sint_lt_MaxInt: "x \<noteq> MaxInt \<Longrightarrow> sint (x :: goint) < 2 ^ 63 - 1"
proof -
  assume "x \<noteq> MaxInt"
  then have "sint x \<noteq> sint MaxInt" using sint_inject by blast
  then have "sint x \<noteq> 9223372036854775807" by (simp add: MaxInt_def)
  moreover have "sint x < 9223372036854775808" using sint_lt [of x] by simp
  ultimately show ?thesis by simp
qed

lemma sint_Suc: "x \<noteq> MaxInt \<Longrightarrow> sint (x + 1 :: goint) = sint x + 1"
  using sint_lt_MaxInt [of x] sint_range [of x]
  by (simp add: sint_word_ariths signed_take_bit_int_eq_self)

lemma sless_Suc: "x \<noteq> MaxInt \<Longrightarrow> (x :: goint) <s x + 1"
  by (simp add: word_sless_alt sint_Suc)

lemma highest_id_loop_bound:
  assumes "highest_id_loop sts n = Some n'"
    and "\<forall>st \<in> set sts. case st of Some t \<Rightarrow> ID t \<noteq> MaxInt | None \<Rightarrow> True"
  shows "n \<le>s n' \<and> (\<forall>t. Some t \<in> set sts \<longrightarrow> ID t <s n')"
  using assms
proof (induction sts n rule: highest_id_loop.induct)
  case (1 n)
  then show ?case by simp
next
  case (2 ts n)
  then show ?case by simp
next
  case (3 task ts n)
  let ?n2 = "if n \<le>s ID task then ID task + 1 else n"
  from 3 have ih: "?n2 \<le>s n' \<and> (\<forall>t. Some t \<in> set ts \<longrightarrow> ID t <s n')"
    by simp
  from 3 have ne: "ID task \<noteq> MaxInt" by simp
  have a: "n \<le>s ?n2" using sless_Suc [OF ne] by auto
  have b: "ID task <s ?n2" using sless_Suc [OF ne] by auto
  from a b ih show ?case by auto
qed

lemma convert_loop_set:
  "convert_loop sts = Some ts \<Longrightarrow> set ts = {t. Some t \<in> set sts}"
proof (induction sts arbitrary: ts rule: convert_loop.induct)
  case 1
  then show ?case by simp
next
  case (2 sts)
  then show ?case by simp
next
  case (3 st sts)
  then show ?case by (auto split: option.splits)
qed

lemma watermark_LoadTasks:
  assumes "LoadTasks disk m = Ok m'" and "watermark_document disk"
  shows "watermark m'"
proof (cases "disk")
  case (Unmarshalled d)
  show ?thesis
  proof (cases "NextID d = 0")
    case True
    with assms Unmarshalled obtain n ts where
      h: "highest_id_loop (Tasks d) 1 = Some n" and c: "convert_loop (Tasks d) = Some ts"
      and m': "m' = m\<lparr>tasks := ts, nextID := n\<rparr>"
      by (auto simp: LoadTasks_def FileStorage_LoadTasks_def split: option.splits)
    from assms(2) Unmarshalled True
    have "\<forall>st \<in> set (Tasks d). case st of Some t \<Rightarrow> ID t \<noteq> MaxInt | None \<Rightarrow> True"
      by (simp add: watermark_document_def)
    from highest_id_loop_bound [OF h this] convert_loop_set [OF c] m'
    show ?thesis by (simp add: watermark_def)
  next
    case False
    with assms Unmarshalled obtain ts where
      c: "convert_loop (Tasks d) = Some ts"
      and m': "m' = m\<lparr>tasks := ts, nextID := NextID d\<rparr>"
      by (auto simp: LoadTasks_def FileStorage_LoadTasks_def split: option.splits)
    from assms(2) Unmarshalled False
    have "\<forall>st \<in> set (Tasks d). case st of Some t \<Rightarrow> ID t <s NextID d | None \<Rightarrow> True"
      by (simp add: watermark_document_def)
    with convert_loop_set [OF c] m' show ?thesis
      by (force simp: watermark_def)
  qed
qed (use assms in \<open>auto simp: LoadTasks_def FileStorage_LoadTasks_def watermark_def\<close>)

lemma ID_built_task [simp]: "ID (built_task L clk m title priority dueDate) = nextID m"
  by (simp add: built_task_def NewTask_def SetPriority_def SetDueDate_def Let_def
      split: option.splits)

lemma AddTask_eq:
  "AddTask L clk env m title priority dueDate =
     (if strings_TrimSpace L title = [] then (Inl ErrTitleEmpty, m)
      else if priority \<noteq> [] \<and> \<not> ValidatePriority priority
      then (Inl (ErrInvalidPriority priority), m)
      else (case env of
              SaveSucceeds \<Rightarrow> Inr (built_task L clk m title priority dueDate)
            | SaveMkdirFails \<Rightarrow> Inl (ErrSaveFailed MkdirFailed)
            | SaveMarshalFails \<Rightarrow> Inl (ErrSaveFailed MarshalFailed)
            | SaveWriteFails \<Rightarrow> Inl (ErrSaveFailed WriteFailed),
            m\<lparr>tasks := tasks m @ [built_task L clk m title priority dueDate],
              nextID := nextID m + 1\<rparr>))"
  by (cases env)
     (simp_all add: AddTask_def built_task_def Let_def SaveTasks_def
        FileStorage_SaveTasks_def)

lemma watermark_AddTask:
  assumes "watermark m" and "nextID m \<noteq> MaxInt"
  shows "watermark (snd (AddTask L clk env m title priority dueDate))"
  using assms sless_Suc [OF assms(2)]
  by (auto simp: AddTask_eq watermark_def intro: signed.less_trans)

lemma DeleteTask_cases:
  "DeleteTask env m id' = (r, m') \<Longrightarrow>
   m' = m \<or> (\<exists>i. find_by_id (tasks m) id' = Some i \<and>
               m' = m\<lparr>tasks := take i (tasks m) @ drop (i + 1) (tasks m)\<rparr>)"
  by (auto simp: DeleteTask_def Let_def split: if_splits option.splits)

lemma watermark_DeleteTask:
  assumes "watermark m"
  shows "watermark (snd (DeleteTask env m id'))"
proof -
  obtain r m' where e: "DeleteTask env m id' = (r, m')"
    by (cases "DeleteTask env m id'")
  from DeleteTask_cases [OF e] assms e show ?thesis
    by (auto simp: watermark_def dest!: in_set_takeD in_set_dropD)
qed

lemma watermark_CompleteTask:
  assumes "watermark m"
  shows "watermark (snd (CompleteTask clk env m id'))"
proof -
  have "ID t <s nextID m" if "t \<in> set ((tasks m)[i := Complete now (tasks m ! i)])"
    and "i < length (tasks m)" for t i now
  proof -
    from that(1) have "t \<in> insert (Complete now (tasks m ! i)) (set (tasks m))"
      using set_update_subset_insert by fastforce
    with assms that(2) show ?thesis
      by (auto simp: watermark_def Complete_def)
  qed
  with assms show ?thesis
    by (auto simp: CompleteTask_def GetTask_def Let_def watermark_def
        split: sum.splits option.splits if_splits dest: find_by_id_Some)
qed

text \<open>
  Claim C2, as amended. The watermark (\<^verbatim>\<open>nextID\<close> is greater than the id of every task
  of the collection) holds for a new manager; it holds after a \<^verbatim>\<open>LoadTasks\<close> that
  returns, when the stored \<^verbatim>\<open>next_id\<close> is zero (it is recomputed) and no stored id is
  the largest \<^verbatim>\<open>int\<close>, or when the stored \<^verbatim>\<open>next_id\<close> is already above every stored
  id; \<^verbatim>\<open>AddTask\<close> keeps it while \<^verbatim>\<open>nextID\<close> is below the largest \<^verbatim>\<open>int\<close>, and
  \<^verbatim>\<open>DeleteTask\<close> and \<^verbatim>\<open>CompleteTask\<close> keep it always, whether the save succeeds or not.
\<close>

theorem watermark_invariant:
  "watermark NewManager
   \<and> (LoadTasks disk m = Ok m' \<and> watermark_document disk \<longrightarrow> watermark m')
   \<and> (watermark m \<and> nextID m \<noteq> MaxInt \<longrightarrow>
        watermark (snd (AddTask L clk env m title priority dueDate)))
   \<and> (watermark m \<longrightarrow> watermark (snd (DeleteTask env m id')))
   \<and> (watermark m \<longrightarrow> watermark (snd (CompleteTask clk env m id')))"
proof -
  have "watermark NewManager"
    by (simp add: watermark_def NewManager_def)
  moreover have "LoadTasks disk m = Ok m' \<and> watermark_document disk \<longrightarrow> watermark m'"
    using watermark_LoadTasks by blast
  moreover have "watermark m \<and> nextID m \<noteq> MaxInt \<longrightarrow>
      watermark (snd (AddTask L clk env m title priority dueDate))"
    using watermark_AddTask by blast
  moreover have "watermark m \<longrightarrow> watermark (snd (DeleteTask env m id'))"
    using watermark_DeleteTask by blast
  moreover have "watermark m \<longrightarrow> watermark (snd (CompleteTask clk env m id'))"
    using watermark_CompleteTask by blast
  ultimately show ?thesis by blast
qed

theorem watermark_invariant_witness:
  "LoadTasks (Unmarshalled legacy_document) NewManager
     = Ok \<lparr>tasks = [task_of 3 False ''low'' None, task_of 1 True ''high'' None], nextID = 4\<rparr>
   \<and> watermark_document (Unmarshalled legacy_document)
   \<and> watermark \<lparr>tasks = [task_of 3 False ''low'' None, task_of 1 True ''high'' None],
                  nextID = 4\<rparr>
   \<and> watermark (snd (AddTask small_lib (\<lambda>k. 100) SaveWriteFails
        \<lparr>tasks = [task_of 3 False ''low'' None, task_of 1 True ''high'' None], nextID = 4\<rparr>
        ''Buy milk'' ''high'' None))
   \<and> watermark (snd (DeleteTask SaveSucceeds
        \<lparr>tasks = [task_of 3 False ''low'' None, task_of 1 True ''high'' None], nextID = 4\<rparr>
        3))
   \<and> watermark (snd (CompleteTask (\<lambda>k. 100) SaveSucceeds
        \<lparr>tasks = [task_of 3 False ''low'' None, task_of 1 True ''high'' None], nextID = 4\<rparr>
        3))"
proof -
  let ?m = "\<lparr>tasks = [task_of 3 False ''low'' None, task_of 1 True ''high'' None],
             nextID = 4 :: goint\<rparr>"
  have l: "LoadTasks (Unmarshalled legacy_document) NewManager = Ok ?m"
    by (simp add: LoadTasks_def FileStorage_LoadTasks_def legacy_document_def NewManager_def
        task_of_def word_sle_eq)
  have d: "watermark_document (Unmarshalled legacy_document)"
    by (simp add: watermark_document_def legacy_document_def task_of_def MaxInt_def)
  have n: "nextID ?m \<noteq> MaxInt" by (simp add: MaxInt_def)
  note w = watermark_invariant [where disk = "Unmarshalled legacy_document"
      and m = NewManager and m' = ?m]
  have wm: "watermark ?m" using w l d by simp
  show ?thesis
    using l d wm n
      watermark_invariant [where m = ?m and L = small_lib and clk = "\<lambda>k. 100"
        and env = SaveWriteFails and title = "''Buy milk''" and priority = "''high''"
        and dueDate = None and id' = 3]
      watermark_invariant [where m = ?m and env = SaveSucceeds and clk = "\<lambda>k. 100"
        and id' = 3]
    by simp
qed

text \<open>
  The claim as stated fails after \<^verbatim>\<open>LoadTasks\<close>: only a stored \<^verbatim>\<open>next_id\<close> of zero is
  recomputed, any other value is taken as it is.
\<close>

theorem watermark_load_counterexample:
  "LoadTasks (Unmarshalled stale_document) NewManager
     = Ok \<lparr>tasks = [task_of 5 False ''low'' None], nextID = 2\<rparr>
   \<and> \<not> watermark \<lparr>tasks = [task_of 5 False ''low'' None], nextID = 2\<rparr>"
  by (simp add: LoadTasks_def FileStorage_LoadTasks_def stale_document_def NewManager_def
      task_of_def watermark_def word_sless_alt)

section \<open>Ids assigned by AddTask\<close>















section \<open>Listing: the sort orders\<close>

lemma swo_key:
  fixes key :: "'a \<Rightarrow> 'k::linorder"
  shows "strict_weak_order (\<lambda>a b. key a < key b)"
  unfolding strict_weak_order_def by auto

lemma swo_less_priority: "strict_weak_order less_priority"
  unfolding strict_weak_order_def less_priority_def by auto

lemma less_due_cases:
  "less_due a b =
     (case (DueDate a, DueDate b) of
        (None, None) \<Rightarrow> sint (ID a) < sint (ID b)
      | (None, Some dj) \<Rightarrow> False
      | (Some di, None) \<Rightarrow> True
      | (Some di, Some dj) \<Rightarrow> di < dj)"
  by (simp add: less_due_def word_sless_alt split: option.splits)

lemma swo_less_due: "strict_weak_order less_due"
  unfolding strict_weak_order_def less_due_cases
  by (auto split: option.splits)

lemma sorted_sortTasks:
  assumes "sort_Slice_sorts L" and "strict_weak_order lt" and "i < j"
    and "j < length (sort_Slice L lt xs)"
  shows "\<not> lt (sort_Slice L lt xs ! j) (sort_Slice L lt xs ! i)"
proof -
  from assms(1,2) have "sorted_wrt (\<lambda>a b. \<not> lt b a) (sort_Slice L lt xs)"
    by (simp add: sort_Slice_sorts_def)
  with assms(3,4) show ?thesis by (simp add: sorted_wrt_iff_nth_less)
qed

lemma priorityOrder_values:
  "map_index priorityOrder p =
     (if p = PriorityLow then 1 else if p = PriorityMedium then 2
      else if p = PriorityHigh then 3 else 0)"
  by (simp add: map_index_def priorityOrder_def PriorityLow_def PriorityMedium_def
      PriorityHigh_def)

text \<open>
  Claim C1, as amended. For every task collection and every \<^verbatim>\<open>sort.Slice\<close> that keeps
  its documented promise, \<^verbatim>\<open>ListTasks\<close> with \<^verbatim>\<open>SortBy = "priority"\<close> returns the tasks
  that pass the filter, each as often as the collection holds it, with all high-priority
  tasks before all medium-priority tasks before all low-priority tasks (and these before
  tasks of any other priority). The order among tasks of equal priority is left open.
\<close>

theorem ListTasks_priority_order:
  assumes "sort_Slice_contract L" and "SortBy f = ''priority''"
  shows "mset (ListTasks L m f) = mset (filter (passes_filter L f) (tasks m))
     \<and> (\<forall>i j. i < j \<and> j < length (ListTasks L m f) \<longrightarrow>
          map_index priorityOrder (Priority (ListTasks L m f ! j))
            \<le> map_index priorityOrder (Priority (ListTasks L m f ! i))
          \<and> (Priority (ListTasks L m f ! j) = PriorityHigh \<longrightarrow>
               Priority (ListTasks L m f ! i) = PriorityHigh)
          \<and> (Priority (ListTasks L m f ! j) = PriorityMedium \<longrightarrow>
               Priority (ListTasks L m f ! i) = PriorityHigh
               \<or> Priority (ListTasks L m f ! i) = PriorityMedium))"
proof -
  from assms(1) have p: "sort_Slice_permutes L" and s: "sort_Slice_sorts L"
    by (simp_all add: sort_Slice_contract_def)
  let ?xs = "filter_loop L f (tasks m) []"
  have e: "ListTasks L m f = sort_Slice L less_priority ?xs"
    by (simp add: ListTasks_def sortTasks_def assms(2))
  have r: "map_index priorityOrder (Priority (ListTasks L m f ! j))
            \<le> map_index priorityOrder (Priority (ListTasks L m f ! i))"
    if "i < j" "j < length (ListTasks L m f)" for i j
    using sorted_sortTasks [OF s swo_less_priority, of i j ?xs] that
    by (simp add: e less_priority_def)
  have "Priority (ListTasks L m f ! i) = PriorityHigh"
    if "i < j" "j < length (ListTasks L m f)" "Priority (ListTasks L m f ! j) = PriorityHigh"
    for i j
    using r [OF that(1,2)] that(3)
    by (simp add: priorityOrder_values PriorityMedium_def PriorityHigh_def PriorityLow_def
        split: if_splits)
  moreover have "Priority (ListTasks L m f ! i) = PriorityHigh
      \<or> Priority (ListTasks L m f ! i) = PriorityMedium"
    if "i < j" "j < length (ListTasks L m f)" "Priority (ListTasks L m f ! j) = PriorityMedium"
    for i j
    using r [OF that(1,2)] that(3)
    by (simp add: priorityOrder_values PriorityMedium_def PriorityHigh_def PriorityLow_def
        split: if_splits)
  ultimately show ?thesis
    using r mset_ListTasks [OF p] by blast
qed

text \<open>The witness is the scenario of the specification: low, high, medium gives 2, 3, 1.\<close>

theorem ListTasks_priority_order_witness:
  "sort_Slice_contract small_lib
   \<and> SortBy by_priority = ''priority''
   \<and> map ID (ListTasks small_lib three_tasks by_priority) = [2, 3, 1]
   \<and> map_index priorityOrder (Priority (ListTasks small_lib three_tasks by_priority ! 2))
       \<le> map_index priorityOrder (Priority (ListTasks small_lib three_tasks by_priority ! 0))"
proof -
  have s: "SortBy by_priority = ''priority''" by (simp add: by_priority_def)
  have l: "map ID (ListTasks small_lib three_tasks by_priority) = [2, 3, 1]"
    by code_simp
  from l have n: "length (ListTasks small_lib three_tasks by_priority) = 3"
    using length_map [of ID "ListTasks small_lib three_tasks by_priority"] by simp
  from ListTasks_priority_order [OF small_lib_contract s, of three_tasks] n
  have "map_index priorityOrder (Priority (ListTasks small_lib three_tasks by_priority ! 2))
       \<le> map_index priorityOrder (Priority (ListTasks small_lib three_tasks by_priority ! 0))"
    by simp
  with small_lib_contract s l show ?thesis by simp
qed

text \<open>
  The claim as stated fails: \<^verbatim>\<open>sortTasks\<close> calls \<^verbatim>\<open>sort.Slice\<close>, which is not a stable
  sort. On twelve medium-priority tasks followed by a high-priority one, the partition
  of the quicksort moves medium-priority tasks past each other: the listing has the ids
  in the order 13, 7, 3, 4, 5, 6, 1, 8, 9, 10, 11, 12, 2.
\<close>

theorem ListTasks_priority_unstable_counterexample:
  "map ID (tasks thirteen_tasks) = [1, 2, 3, 4, 5, 6, 7, 8, 9, 10, 11, 12, 13]
   \<and> map ID (filter_loop go_lib by_priority (tasks thirteen_tasks) [])
       = [1, 2, 3, 4, 5, 6, 7, 8, 9, 10, 11, 12, 13]
   \<and> map_option (map ID) (sort_Slice_go less_priority (tasks thirteen_tasks))
       = Some [13, 7, 3, 4, 5, 6, 1, 8, 9, 10, 11, 12, 2]
   \<and> map ID (ListTasks go_lib thirteen_tasks by_priority)
       = [13, 7, 3, 4, 5, 6, 1, 8, 9, 10, 11, 12, 2]
   \<and> map ID (filter (\<lambda>t. Priority t = PriorityMedium)
                (ListTasks go_lib thirteen_tasks by_priority))
       \<noteq> map ID (filter (\<lambda>t. Priority t = PriorityMedium) (tasks thirteen_tasks))"
  by code_simp

text \<open>
  Claim C5. For every task collection and every \<^verbatim>\<open>sort.Slice\<close> that keeps its documented
  promise, \<^verbatim>\<open>ListTasks\<close> with \<^verbatim>\<open>SortBy = "due"\<close> returns the tasks that pass the filter,
  each as often as the collection holds it, so that of any two tasks the earlier one in
  the listing has the earlier or the same due date when both have one, no task without a
  due date stands before a task with one, and of two tasks without a due date the earlier
  one has the smaller or the same id.
\<close>

theorem ListTasks_due_order:
  assumes "sort_Slice_contract L" and "SortBy f = ''due''"
  shows "mset (ListTasks L m f) = mset (filter (passes_filter L f) (tasks m))
     \<and> (\<forall>i j. i < j \<and> j < length (ListTasks L m f) \<longrightarrow>
          (case (DueDate (ListTasks L m f ! i), DueDate (ListTasks L m f ! j)) of
             (Some di, Some dj) \<Rightarrow> di \<le> dj
           | (Some di, None) \<Rightarrow> True
           | (None, Some dj) \<Rightarrow> False
           | (None, None) \<Rightarrow> ID (ListTasks L m f ! i) \<le>s ID (ListTasks L m f ! j)))"
proof -
  from assms(1) have p: "sort_Slice_permutes L" and s: "sort_Slice_sorts L"
    by (simp_all add: sort_Slice_contract_def)
  let ?xs = "filter_loop L f (tasks m) []"
  have e: "ListTasks L m f = sort_Slice L less_due ?xs"
    by (simp add: ListTasks_def sortTasks_def assms(2))
  have "case (DueDate (ListTasks L m f ! i), DueDate (ListTasks L m f ! j)) of
             (Some di, Some dj) \<Rightarrow> di \<le> dj
           | (Some di, None) \<Rightarrow> True
           | (None, Some dj) \<Rightarrow> False
           | (None, None) \<Rightarrow> ID (ListTasks L m f ! i) \<le>s ID (ListTasks L m f ! j)"
    if "i < j" "j < length (ListTasks L m f)" for i j
    using sorted_sortTasks [OF s swo_less_due, of i j ?xs] that
    by (simp add: e less_due_cases word_sle_eq split: option.splits)
  then show ?thesis
    using mset_ListTasks [OF p] by blast
qed

theorem ListTasks_due_order_witness:
  "sort_Slice_contract small_lib
   \<and> SortBy by_due = ''due''
   \<and> map ID (ListTasks small_lib due_tasks by_due) = [4, 2, 1, 3]
   \<and> map DueDate (ListTasks small_lib due_tasks by_due) = [Some 20, Some 50, None, None]
   \<and> (case (DueDate (ListTasks small_lib due_tasks by_due ! 0),
              DueDate (ListTasks small_lib due_tasks by_due ! 1)) of
         (Some di, Some dj) \<Rightarrow> di \<le> dj
       | (Some di, None) \<Rightarrow> True
       | (None, Some dj) \<Rightarrow> False
       | (None, None) \<Rightarrow> ID (ListTasks small_lib due_tasks by_due ! 0)
                          \<le>s ID (ListTasks small_lib due_tasks by_due ! 1))
   \<and> ID (ListTasks small_lib due_tasks by_due ! 2)
       \<le>s ID (ListTasks small_lib due_tasks by_due ! 3)"
proof -
  have s: "SortBy by_due = ''due''" by (simp add: by_due_def)
  have l: "map ID (ListTasks small_lib due_tasks by_due) = [4, 2, 1, 3]"
    by code_simp
  have d: "map DueDate (ListTasks small_lib due_tasks by_due) = [Some 20, Some 50, None, None]"
    by code_simp
  from l have n: "length (ListTasks small_lib due_tasks by_due) = 4"
    using length_map [of ID "ListTasks small_lib due_tasks by_due"] by simp
  note t = ListTasks_due_order [OF small_lib_contract s, of due_tasks, THEN conjunct2, rule_format]
  have d2: "DueDate (ListTasks small_lib due_tasks by_due ! 2) = None"
    and d3: "DueDate (ListTasks small_lib due_tasks by_due ! 3) = None"
    using d n nth_map [of 2 "ListTasks small_lib due_tasks by_due" DueDate]
      nth_map [of 3 "ListTasks small_lib due_tasks by_due" DueDate]
    by simp_all
  have a: "case (DueDate (ListTasks small_lib due_tasks by_due ! 0),
              DueDate (ListTasks small_lib due_tasks by_due ! 1)) of
         (Some di, Some dj) \<Rightarrow> di \<le> dj
       | (Some di, None) \<Rightarrow> True
       | (None, Some dj) \<Rightarrow> False
       | (None, None) \<Rightarrow> ID (ListTasks small_lib due_tasks by_due ! 0)
                          \<le>s ID (ListTasks small_lib due_tasks by_due ! 1)"
    using t [of 0 1] n by simp
  have b: "ID (ListTasks small_lib due_tasks by_due ! 2)
       \<le>s ID (ListTasks small_lib due_tasks by_due ! 3)"
    using t [of 2 3] n d2 d3 by simp
  from small_lib_contract s l d a b show ?thesis by blast
qed

end
